theory Spec2Isabelle
  imports Main
begin

section \<open>Strings\<close>

text \<open>
  A Python \<^verbatim>\<open>str\<close> is a sequence of Unicode code points, so a character is modelled by
  its code point and a string by the list of its code points. \<open>py\<close> embeds an ASCII
  literal; a character outside ASCII is written by its code point (\<open>237\<close> is U+00ED).
\<close>

type_synonym uchar = nat
type_synonym ustr = "uchar list"

definition py :: "string \<Rightarrow> ustr" where
  "py cs = map of_char cs"

text \<open>
  \<^verbatim>\<open>str.strip()\<close> without argument removes leading and trailing whitespace, where
  whitespace is what \<^verbatim>\<open>str.isspace\<close> accepts: U+0009..U+000D, U+001C..U+0020, U+0085,
  U+00A0, U+1680, U+2000..U+200A, U+2028, U+2029, U+202F, U+205F and U+3000.
\<close>

definition is_space :: "uchar \<Rightarrow> bool" where
  "is_space c \<longleftrightarrow>
     (9 \<le> c \<and> c \<le> 13) \<or> (28 \<le> c \<and> c \<le> 32) \<or> c = 133 \<or> c = 160 \<or> c = 5760 \<or>
     (8192 \<le> c \<and> c \<le> 8202) \<or> c = 8232 \<or> c = 8233 \<or> c = 8239 \<or> c = 8287 \<or> c = 12288"

definition strip :: "ustr \<Rightarrow> ustr" where
  "strip s = rev (dropWhile is_space (rev (dropWhile is_space s)))"


section \<open>The regular expressions of the program\<close>

text \<open>
  The fragment of Python's \<^verbatim>\<open>re\<close> syntax that \<^verbatim>\<open>Main.py\<close> uses: a single-character
  atom is a literal (\<^verbatim>\<open>\(\<close>), a negated one-character class (\<^verbatim>\<open>[^,]\<close>) or the dot, which
  matches every character but the line feed (no \<^verbatim>\<open>DOTALL\<close> flag is given); atoms are
  repeated by \<^verbatim>\<open>+\<close>, \<^verbatim>\<open>*\<close> (both greedy) or \<^verbatim>\<open>*?\<close> (lazy); patterns are concatenated and
  put in numbered capture groups.
\<close>

datatype cset = Lit uchar | AnyBut uchar | Dot

fun accepts :: "cset \<Rightarrow> uchar \<Rightarrow> bool" where
  "accepts (Lit a) c = (c = a)"
| "accepts (AnyBut a) c = (c \<noteq> a)"
| "accepts Dot c = (c \<noteq> 10)"

datatype rx = Chr cset | Plus cset | Star cset | LazyStar cset | Cat rx rx | Group nat rx

text \<open>
  The matcher of \<^verbatim>\<open>re\<close> backtracks: a greedy repetition first takes the longest run of
  accepted characters and gives them back one at a time, a lazy one first takes nothing
  and extends by one character at a time. \<open>paths r s\<close> lists, in the order in which the
  matcher tries them, all the ways in which \<open>r\<close> matches a prefix of \<open>s\<close>: the text
  consumed and the capture groups set. The match that \<^verbatim>\<open>re\<close> reports is the first one.
\<close>

type_synonym path = "ustr \<times> (nat \<times> ustr) list"

fun greedy :: "cset \<Rightarrow> ustr \<Rightarrow> ustr list" where
  "greedy a [] = [[]]"
| "greedy a (c # cs) = (if accepts a c then map ((#) c) (greedy a cs) else []) @ [[]]"

fun lazy :: "cset \<Rightarrow> ustr \<Rightarrow> ustr list" where
  "lazy a [] = [[]]"
| "lazy a (c # cs) = [] # (if accepts a c then map ((#) c) (lazy a cs) else [])"

fun paths :: "rx \<Rightarrow> ustr \<Rightarrow> path list" where
  "paths (Chr a) s = (case s of [] \<Rightarrow> [] | c # cs \<Rightarrow> if accepts a c then [([c], [])] else [])"
| "paths (Plus a) s = map (\<lambda>m. (m, [])) (filter (\<lambda>m. m \<noteq> []) (greedy a s))"
| "paths (Star a) s = map (\<lambda>m. (m, [])) (greedy a s)"
| "paths (LazyStar a) s = map (\<lambda>m. (m, [])) (lazy a s)"
| "paths (Cat r1 r2) s =
     concat (map (\<lambda>(m1, g1). map (\<lambda>(m2, g2). (m1 @ m2, g1 @ g2)) (paths r2 (drop (length m1) s)))
                 (paths r1 s))"
| "paths (Group i r) s = map (\<lambda>(m, g). (m, (i, m) # g)) (paths r s)"

text \<open>\<^verbatim>\<open>pattern.match(s)\<close>: the first match at the start of \<open>s\<close>, or \<^verbatim>\<open>None\<close>.\<close>

definition rx_match :: "rx \<Rightarrow> ustr \<Rightarrow> path option" where
  "rx_match r s = (case paths r s of [] \<Rightarrow> None | p # _ \<Rightarrow> Some p)"

text \<open>
  \<^verbatim>\<open>match.group(i)\<close>, for a group that took part in the match; both groups of the name
  and quantity pattern take part in each of its matches (\<open>name_first\<close>).
\<close>

definition group :: "(nat \<times> ustr) list \<Rightarrow> nat \<Rightarrow> ustr" where
  "group g i = (case map_of g i of None \<Rightarrow> [] | Some t \<Rightarrow> t)"

text \<open>
  \<^verbatim>\<open>pattern.findall(s)\<close> for a pattern with one capture group: scan from the left; where
  the pattern matches, report group 1 and go on behind the match; where it does not,
  move on by one character. A match of the empty string also moves on by one character;
  the item pattern below never matches the empty string (\<open>item_shape\<close>).
\<close>

function findall :: "rx \<Rightarrow> ustr \<Rightarrow> ustr list" where
  "findall r s =
     (case rx_match r s of
        None \<Rightarrow> (case s of [] \<Rightarrow> [] | c # cs \<Rightarrow> findall r cs)
      | Some (m, g) \<Rightarrow>
          group g 1 #
          (if m = [] \<or> s = [] then (case s of [] \<Rightarrow> [] | c # cs \<Rightarrow> findall r cs)
           else findall r (drop (length m) s)))"
  by pat_completeness auto
termination
  by (relation "measure (\<lambda>(r, s). length s)") auto

declare findall.simps [simp del]

text \<open>\<^verbatim>\<open>NUTRIENT_ITEM_REGEX = re.compile(r'([^,]+\([^)]*\))')\<close>; 44 is the comma, 40 and 41
  are the parentheses.\<close>

definition NUTRIENT_ITEM_REGEX :: rx where
  "NUTRIENT_ITEM_REGEX =
     Group 1 (Cat (Plus (AnyBut 44)) (Cat (Chr (Lit 40)) (Cat (Star (AnyBut 41)) (Chr (Lit 41)))))"

text \<open>\<^verbatim>\<open>NUTRIENT_NAME_AND_QTY_REGEX = re.compile(r'(.*?)\((.*?)\)')\<close>\<close>

definition NUTRIENT_NAME_AND_QTY_REGEX :: rx where
  "NUTRIENT_NAME_AND_QTY_REGEX =
     Cat (Group 1 (LazyStar Dot)) (Cat (Chr (Lit 40)) (Cat (Group 2 (LazyStar Dot)) (Chr (Lit 41))))"

section \<open>The nutrient sub-parser\<close>

text \<open>
  The body of the loop of \<^verbatim>\<open>parse_nutrients\<close>: the entry that one item of the scan
  contributes. Its second branch is the fallback that keeps the whole item as the name.
\<close>

definition nutrient_entry :: "ustr \<Rightarrow> ustr \<times> ustr" where
  "nutrient_entry item0 =
     (let item = strip item0 in
      case rx_match NUTRIENT_NAME_AND_QTY_REGEX item of
        Some (m, g) \<Rightarrow> (strip (group g 1), strip (group g 2))
      | None \<Rightarrow> (item, []))"

fun parse_loop :: "ustr list \<Rightarrow> (ustr \<times> ustr) list \<Rightarrow> (ustr \<times> ustr) list" where
  "parse_loop [] results = results"
| "parse_loop (item # items) results = parse_loop items (results @ [nutrient_entry item])"

text \<open>
  The argument is optional: \<^verbatim>\<open>nutrient_str or ""\<close> turns \<^verbatim>\<open>None\<close> into the empty string
  (and leaves the empty string, the only other false string, as it is).
\<close>

definition parse_nutrients :: "ustr option \<Rightarrow> (ustr \<times> ustr) list" where
  "parse_nutrients nutrient_str =
     parse_loop (findall NUTRIENT_ITEM_REGEX (case nutrient_str of None \<Rightarrow> [] | Some t \<Rightarrow> t)) []"

text \<open>
  The same function with the state of the module passed through it. The module has five
  variables; \<^verbatim>\<open>parse_nutrients\<close> looks up the two patterns in them at the time of the call,
  and its own \<^verbatim>\<open>items\<close> and \<^verbatim>\<open>results\<close> are new in every call. Each step takes the
  state and hands on the state it leaves behind.
\<close>

record globals =
  input_json :: ustr
  output_csv :: ustr
  column_mapping :: "(ustr \<times> ustr option) list"
  nutrient_item_regex :: rx
  nutrient_name_and_qty_regex :: rx

fun parse_loop_st ::
  "ustr list \<Rightarrow> (ustr \<times> ustr) list \<Rightarrow> globals \<Rightarrow> (ustr \<times> ustr) list \<times> globals" where
  "parse_loop_st [] results st = (results, st)"
| "parse_loop_st (item0 # items) results st =
     (let item = strip item0 in
      case rx_match (nutrient_name_and_qty_regex st) item of
        Some (m, g) \<Rightarrow> parse_loop_st items (results @ [(strip (group g 1), strip (group g 2))]) st
      | None \<Rightarrow> parse_loop_st items (results @ [(item, [])]) st)"

definition parse_nutrients_st :: "ustr option \<Rightarrow> globals \<Rightarrow> (ustr \<times> ustr) list \<times> globals" where
  "parse_nutrients_st nutrient_str st =
     parse_loop_st
       (findall (nutrient_item_regex st) (case nutrient_str of None \<Rightarrow> [] | Some t \<Rightarrow> t)) [] st"

section \<open>The row expander\<close>

text \<open>
  A product is a JSON object with string values, a row a dictionary from column names
  to cell texts. \<open>get_or_empty d k\<close> is \<^verbatim>\<open>d.get(k, "")\<close>.
\<close>

type_synonym product = "ustr \<rightharpoonup> ustr"
type_synonym row = "ustr \<rightharpoonup> ustr"

definition get_or_empty :: "product \<Rightarrow> ustr \<Rightarrow> ustr" where
  "get_or_empty d k = (case d k of None \<Rightarrow> [] | Some v \<Rightarrow> v)"

definition COLUMN_MAPPING :: "(ustr \<times> ustr option) list" where
  "COLUMN_MAPPING =
    [(py ''Product Name'', Some (py ''Product Name'')),
     (py ''Label Format'', Some (py ''Label Format'')),
     (py ''SKU'', Some (py ''SKU'')),
     (py ''Product ID'', Some (py ''Product ID'')),
     (py ''Size'', Some (py ''Size'')),
     (py ''#servper_Cont'', Some (py ''Servings per Container'')),
     (py ''ServingSz'', Some (py ''Serving Size'')),
     (py ''Kcal'', Some (py ''Calories'')),
     (py ''Calories from Fat from Saturated'', Some (py ''Calories from Saturated Fat'')),
     (py ''Nutrient'', None),
     (py ''Quantity'', None),
     (py ''Percent Allowance'', Some (py ''Percent Allowance'')),
     (py ''Comments'', Some (py ''Comments'')),
     (py ''Ingredients'', Some (py ''Ingredients'')),
     (py ''Claims'', Some (py ''Claims'')),
     (py ''Suggested Use'', Some (py ''Suggested Use'')),
     (py ''Warnings'', Some (py ''Warnings'')),
     (py ''Origin'', Some (py ''Origin'')),
     (py ''Storage'', Some (py ''Storage'')),
     (py ''Weight'', Some (py ''Weight''))]"

text \<open>The state of the module once \<^verbatim>\<open>Main.py\<close> is loaded.\<close>

definition module_loaded :: globals where
  "module_loaded =
     \<lparr>input_json = py ''Sticker priya 03-01-2025 - Sheet2.json'',
      output_csv = py ''output.csv'',
      column_mapping = COLUMN_MAPPING,
      nutrient_item_regex = NUTRIENT_ITEM_REGEX,
      nutrient_name_and_qty_regex = NUTRIENT_NAME_AND_QTY_REGEX\<rparr>"

text \<open>
  \<^verbatim>\<open>is_first_row and json_key\<close> asks for a key that is neither \<^verbatim>\<open>None\<close> nor the empty
  string. The loop of \<^verbatim>\<open>build_row\<close> runs over the table handed to it and assigns one cell
  in each round.
\<close>

fun truthy :: "ustr option \<Rightarrow> bool" where
  "truthy None = False"
| "truthy (Some k) = (k \<noteq> [])"

fun build_row_loop ::
  "(ustr \<times> ustr option) list \<Rightarrow> product \<Rightarrow> ustr \<Rightarrow> ustr \<Rightarrow> bool \<Rightarrow> row \<Rightarrow> row" where
  "build_row_loop [] product_data nutrient_name quantity is_first_row row = row"
| "build_row_loop ((csv_col, json_key) # rest) product_data nutrient_name quantity is_first_row row =
     build_row_loop rest product_data nutrient_name quantity is_first_row
       (if csv_col = py ''Nutrient'' then row(csv_col \<mapsto> nutrient_name)
        else if csv_col = py ''Quantity'' then row(csv_col \<mapsto> quantity)
        else if is_first_row \<and> truthy json_key
          then row(csv_col \<mapsto> get_or_empty product_data (the json_key))
          else row(csv_col \<mapsto> []))"

definition build_row :: "product \<Rightarrow> ustr \<Rightarrow> ustr \<Rightarrow> bool \<Rightarrow> row" where
  "build_row product_data nutrient_name quantity is_first_row =
     build_row_loop COLUMN_MAPPING product_data nutrient_name quantity is_first_row Map.empty"

text \<open>The \<^verbatim>\<open>enumerate\<close> loop of \<^verbatim>\<open>build_rows_for_product\<close>, with its counter.\<close>

fun rows_loop :: "product \<Rightarrow> nat \<Rightarrow> (ustr \<times> ustr) list \<Rightarrow> row list \<Rightarrow> row list" where
  "rows_loop product i [] rows = rows"
| "rows_loop product i ((nut_name, nut_qty) # rest) rows =
     rows_loop product (Suc i) rest (rows @ [build_row product nut_name nut_qty (i = 0)])"

definition build_rows_for_product :: "product \<Rightarrow> row list" where
  "build_rows_for_product product =
     (let nutrient_pairs = parse_nutrients (Some (get_or_empty product (py ''Nutrient'')))
      in if nutrient_pairs = [] then [build_row product [] [] True]
         else rows_loop product 0 nutrient_pairs [])"

text \<open>
  \<^verbatim>\<open>convert_json_to_csv\<close> without its files: the rows handed to \<^verbatim>\<open>writer.writerow\<close>, in
  the order of the calls, for the list of products that \<^verbatim>\<open>json.load\<close> returned.
\<close>

fun write_rows :: "row list \<Rightarrow> row list \<Rightarrow> row list" where
  "write_rows [] written = written"
| "write_rows (row # product_rows) written = write_rows product_rows (written @ [row])"

fun convert_loop :: "product list \<Rightarrow> row list \<Rightarrow> row list" where
  "convert_loop [] written = written"
| "convert_loop (product # data) written =
     convert_loop data (write_rows (build_rows_for_product product) written)"

definition convert_json_to_csv :: "product list \<Rightarrow> row list" where
  "convert_json_to_csv data = convert_loop data []"

section \<open>Evaluating the scan\<close>

lemma findall_Nil: "rx_match r [] = None \<Longrightarrow> findall r [] = []"
  by (simp add: findall.simps)

lemma findall_skip: "rx_match r (c # cs) = None \<Longrightarrow> findall r (c # cs) = findall r cs"
  by (simp add: findall.simps)

lemma findall_hit:
  "rx_match r (c # cs) = Some (m, g) \<Longrightarrow> m \<noteq> [] \<Longrightarrow>
   findall r (c # cs) = group g 1 # findall r (drop (length m) (c # cs))"
  by (simp add: findall.simps)

lemmas scan_eval =
  py_def parse_nutrients_def nutrient_entry_def findall_Nil findall_skip findall_hit rx_match_def
  NUTRIENT_ITEM_REGEX_def NUTRIENT_NAME_AND_QTY_REGEX_def strip_def is_space_def group_def

section \<open>What the matcher can match\<close>

text \<open>
  The ways of matching as sets: which texts a pattern can consume, whatever the order in
  which the matcher tries them.
\<close>

lemma greedy_set:
  "m \<in> set (greedy a s) \<longleftrightarrow> (\<exists>r. s = m @ r) \<and> (\<forall>c\<in>set m. accepts a c)"
proof (induction s arbitrary: m)
  case Nil
  then show ?case by auto
next
  case (Cons c cs)
  show ?case
  proof (cases m)
    case Nil
    then show ?thesis by simp
  next
    case (Cons d ds)
    then show ?thesis using Cons.IH [of ds] by auto
  qed
qed

lemma lazy_set:
  "m \<in> set (lazy a s) \<longleftrightarrow> (\<exists>r. s = m @ r) \<and> (\<forall>c\<in>set m. accepts a c)"
proof (induction s arbitrary: m)
  case Nil
  then show ?case by auto
next
  case (Cons c cs)
  show ?case
  proof (cases m)
    case Nil
    then show ?thesis by simp
  next
    case (Cons d ds)
    then show ?thesis using Cons.IH [of ds] by auto
  qed
qed

lemma paths_Cat_iff:
  "(m, g) \<in> set (paths (Cat r1 r2) s) \<longleftrightarrow>
   (\<exists>m1 g1 m2 g2. (m1, g1) \<in> set (paths r1 s) \<and> (m2, g2) \<in> set (paths r2 (drop (length m1) s))
      \<and> m = m1 @ m2 \<and> g = g1 @ g2)"
  by (auto simp: image_iff) force

lemma paths_Chr_iff:
  "(m, g) \<in> set (paths (Chr a) s) \<longleftrightarrow> (\<exists>c cs. s = c # cs \<and> accepts a c \<and> m = [c] \<and> g = [])"
  by (auto split: list.splits)

lemma paths_Group_iff:
  "(m, g) \<in> set (paths (Group i r) s) \<longleftrightarrow> (\<exists>g'. (m, g') \<in> set (paths r s) \<and> g = (i, m) # g')"
  by (force simp: image_iff)

lemma paths_Star_iff:
  "(m, g) \<in> set (paths (Star a) s) \<longleftrightarrow> (\<exists>r. s = m @ r) \<and> (\<forall>c\<in>set m. accepts a c) \<and> g = []"
  by (auto simp: greedy_set image_iff)

lemma paths_LazyStar_iff:
  "(m, g) \<in> set (paths (LazyStar a) s) \<longleftrightarrow> (\<exists>r. s = m @ r) \<and> (\<forall>c\<in>set m. accepts a c) \<and> g = []"
  by (auto simp: lazy_set image_iff)

lemma paths_Plus_iff:
  "(m, g) \<in> set (paths (Plus a) s) \<longleftrightarrow>
   (\<exists>r. s = m @ r) \<and> (\<forall>c\<in>set m. accepts a c) \<and> m \<noteq> [] \<and> g = []"
  by (auto simp: greedy_set image_iff)

lemma paths_prefix: "(m, g) \<in> set (paths r s) \<Longrightarrow> \<exists>rest. s = m @ rest"
proof (induction r arbitrary: s m g)
  case (Cat r1 r2)
  from Cat.prems obtain m1 g1 m2 g2 where
    a: "(m1, g1) \<in> set (paths r1 s)" and b: "(m2, g2) \<in> set (paths r2 (drop (length m1) s))"
    and m: "m = m1 @ m2"
    unfolding paths_Cat_iff by blast
  from Cat.IH(1) [OF a] obtain r1' where s: "s = m1 @ r1'" by blast
  from Cat.IH(2) [OF b] s obtain r2' where "r1' = m2 @ r2'" by auto
  with s m show ?case by simp
qed (auto simp: paths_Chr_iff paths_Star_iff paths_LazyStar_iff paths_Plus_iff paths_Group_iff
      simp del: paths.simps)

lemma paths_CatI:
  "(m1, g1) \<in> set (paths r1 s) \<Longrightarrow> (m2, g2) \<in> set (paths r2 (drop (length m1) s)) \<Longrightarrow>
   (m1 @ m2, g1 @ g2) \<in> set (paths (Cat r1 r2) s)"
  unfolding paths_Cat_iff by blast

lemma item_shape:
  "(m, g) \<in> set (paths NUTRIENT_ITEM_REGEX s) \<longleftrightarrow>
   (\<exists>n q rest. s = m @ rest \<and> m = n @ 40 # q @ [41] \<and> n \<noteq> [] \<and> 44 \<notin> set n \<and> 41 \<notin> set q
      \<and> g = [(1, m)])"
  (is "?L \<longleftrightarrow> ?R")
proof
  assume ?L
  then show ?R
    unfolding NUTRIENT_ITEM_REGEX_def paths_Group_iff paths_Cat_iff paths_Chr_iff paths_Star_iff
      paths_Plus_iff
    by (elim exE conjE) auto
next
  assume ?R
  then obtain n q rest where s: "s = n @ 40 # q @ 41 # rest" and m: "m = n @ 40 # q @ [41]"
    and n: "n \<noteq> []" "44 \<notin> set n" and q: "41 \<notin> set q" and g: "g = [(1, m)]"
    by auto
  have 1: "(n, []) \<in> set (paths (Plus (AnyBut 44)) s)"
    unfolding paths_Plus_iff using s n by auto
  have 2: "([40], []) \<in> set (paths (Chr (Lit 40)) (drop (length n) s))"
    unfolding paths_Chr_iff using s by simp
  have 3: "(q, []) \<in> set (paths (Star (AnyBut 41)) (drop (length [40::nat]) (drop (length n) s)))"
    unfolding paths_Star_iff using s q by auto
  have 4: "([41], []) \<in> set (paths (Chr (Lit 41))
             (drop (length q) (drop (length [40::nat]) (drop (length n) s))))"
    unfolding paths_Chr_iff using s by simp
  have "(n @ [40] @ q @ [41], [] @ [] @ [] @ []) \<in> set (paths
      (Cat (Plus (AnyBut 44)) (Cat (Chr (Lit 40)) (Cat (Star (AnyBut 41)) (Chr (Lit 41))))) s)"
    by (intro paths_CatI 1 2 3 4)
  then show ?L
    unfolding NUTRIENT_ITEM_REGEX_def paths_Group_iff using m g by simp
qed




lemma rx_match_Some_mem: "rx_match r s = Some p \<Longrightarrow> p \<in> set (paths r s)"
  by (auto simp: rx_match_def split: list.splits)








lemma parse_loop_eq: "parse_loop items results = results @ map nutrient_entry items"
  by (induction items arbitrary: results) simp_all

lemma parse_nutrients_eq:
  "parse_nutrients (Some s) = map nutrient_entry (findall NUTRIENT_ITEM_REGEX s)"
  by (simp add: parse_nutrients_def parse_loop_eq)

lemma item_match_Some:
  assumes "rx_match NUTRIENT_ITEM_REGEX s = Some (m, g)"
  shows "\<exists>n q rest. s = m @ rest \<and> m = n @ 40 # q @ [41] \<and> n \<noteq> [] \<and> 44 \<notin> set n \<and> 41 \<notin> set q
           \<and> group g 1 = m"
proof -
  from rx_match_Some_mem [OF assms] obtain n q rest where
    "s = m @ rest" "m = n @ 40 # q @ [41]" "n \<noteq> []" "44 \<notin> set n" "41 \<notin> set q" "g = [(1, m)]"
    unfolding item_shape by blast
  moreover from this have "group g 1 = m" by (simp add: group_def)
  ultimately show ?thesis by blast
qed

lemma findall_item_miss:
  "rx_match NUTRIENT_ITEM_REGEX (c # cs) = None \<Longrightarrow>
   findall NUTRIENT_ITEM_REGEX (c # cs) = findall NUTRIENT_ITEM_REGEX cs"
  by (rule findall_skip)

lemma findall_item_hit:
  assumes "rx_match NUTRIENT_ITEM_REGEX s = Some (m, g)"
  shows "findall NUTRIENT_ITEM_REGEX s = m # findall NUTRIENT_ITEM_REGEX (drop (length m) s)"
proof -
  from item_match_Some [OF assms] have "m \<noteq> []" "s \<noteq> []" "group g 1 = m" by auto
  with assms show ?thesis by (subst findall.simps) simp
qed

lemma findall_item_induct [consumes 0, case_names Nil miss hit]:
  assumes "P []"
    and "\<And>c cs. rx_match NUTRIENT_ITEM_REGEX (c # cs) = None \<Longrightarrow> P cs \<Longrightarrow> P (c # cs)"
    and "\<And>s m g. rx_match NUTRIENT_ITEM_REGEX s = Some (m, g) \<Longrightarrow> P (drop (length m) s) \<Longrightarrow> P s"
  shows "P s"
proof (induction s rule: length_induct)
  case (1 s)
  show ?case
  proof (cases "rx_match NUTRIENT_ITEM_REGEX s")
    case None
    show ?thesis
    proof (cases s)
      case Nil
      with assms(1) show ?thesis by simp
    next
      case (Cons c cs)
      with 1 have "P cs" by simp
      with assms(2) None Cons show ?thesis by simp
    qed
  next
    case (Some p)
    obtain m g where p: "p = (m, g)" by (cases p)
    from item_match_Some [OF Some [unfolded p]] have "m \<noteq> []" "s \<noteq> []" by auto
    then have "length (drop (length m) s) < length s" by simp
    with 1 have "P (drop (length m) s)" by blast
    with assms(3) Some p show ?thesis by blast
  qed
qed

lemma findall_item_Nil: "findall NUTRIENT_ITEM_REGEX [] = []"
  by (simp add: findall.simps rx_match_def NUTRIENT_ITEM_REGEX_def)

lemma findall_item_mem:
  "item \<in> set (findall NUTRIENT_ITEM_REGEX s) \<Longrightarrow>
   \<exists>pre rest n q. s = pre @ item @ rest \<and> item = n @ 40 # q @ [41] \<and> n \<noteq> [] \<and> 44 \<notin> set n
     \<and> 41 \<notin> set q"
proof (induction s rule: findall_item_induct)
  case Nil
  then show ?case by (simp add: findall_item_Nil)
next
  case (miss c cs)
  from miss.prems miss.hyps have "item \<in> set (findall NUTRIENT_ITEM_REGEX cs)"
    by (simp add: findall_item_miss)
  from miss.IH [OF this] obtain pre rest n q where
    "cs = pre @ item @ rest" and *: "item = n @ 40 # q @ [41]" "n \<noteq> []" "44 \<notin> set n" "41 \<notin> set q"
    by blast
  then have "c # cs = (c # pre) @ item @ rest" by simp
  with * show ?case by blast
next
  case (hit s m g)
  from item_match_Some [OF hit.hyps] obtain n q rest where
    s: "s = m @ rest" and m: "m = n @ 40 # q @ [41]" "n \<noteq> []" "44 \<notin> set n" "41 \<notin> set q"
    by blast
  from hit.prems hit.hyps have "item = m \<or> item \<in> set (findall NUTRIENT_ITEM_REGEX (drop (length m) s))"
    by (simp add: findall_item_hit)
  then show ?case
  proof
    assume "item = m"
    with s have "s = [] @ item @ rest" by simp
    with m \<open>item = m\<close> show ?thesis by blast
  next
    assume "item \<in> set (findall NUTRIENT_ITEM_REGEX (drop (length m) s))"
    from hit.IH [OF this] s obtain pre rest' n' q' where
      "rest = pre @ item @ rest'" and *: "item = n' @ 40 # q' @ [41]" "n' \<noteq> []" "44 \<notin> set n'"
        "41 \<notin> set q'"
      by auto
    with s have "s = (m @ pre) @ item @ rest'" by simp
    with * show ?thesis by blast
  qed
qed

lemma findall_item_no_paren: "40 \<notin> set s \<Longrightarrow> findall NUTRIENT_ITEM_REGEX s = []"
proof (rule ccontr)
  assume a: "40 \<notin> set s" and "findall NUTRIENT_ITEM_REGEX s \<noteq> []"
  then obtain item where "item \<in> set (findall NUTRIENT_ITEM_REGEX s)"
    by (cases "findall NUTRIENT_ITEM_REGEX s") auto
  from findall_item_mem [OF this] a show False by auto
qed

lemma findall_item_in_order:
  "\<exists>gaps rest. length gaps = length (findall NUTRIENT_ITEM_REGEX s)
     \<and> s = concat (map (\<lambda>(gap, item). gap @ item) (zip gaps (findall NUTRIENT_ITEM_REGEX s))) @ rest"
proof (induction s rule: findall_item_induct)
  case Nil
  then show ?case by (simp add: findall_item_Nil)
next
  case (miss c cs)
  define items where "items = findall NUTRIENT_ITEM_REGEX cs"
  from miss.IH obtain gaps rest where
    l: "length gaps = length items"
    and e: "cs = concat (map (\<lambda>(gap, item). gap @ item) (zip gaps items)) @ rest"
    unfolding items_def by blast
  have f: "findall NUTRIENT_ITEM_REGEX (c # cs) = items"
    unfolding items_def by (rule findall_item_miss [OF miss.hyps])
  show ?case
  proof (cases gaps)
    case Nil
    with l have "items = []" by simp
    with e have "length ([] :: ustr list) = length items \<and>
        c # cs = concat (map (\<lambda>(gap, item). gap @ item) (zip [] items)) @ (c # rest)"
      by simp
    then show ?thesis unfolding f by blast
  next
    case (Cons g0 gs)
    with l obtain i0 its where its: "items = i0 # its" by (cases items) auto
    have "c # cs = c # (concat (map (\<lambda>(gap, item). gap @ item) (zip gaps items)) @ rest)"
      using e by (rule arg_cong)
    also have "\<dots> = concat (map (\<lambda>(gap, item). gap @ item) (zip ((c # g0) # gs) items)) @ rest"
      unfolding its Cons by simp
    finally have "length ((c # g0) # gs) = length items \<and>
        c # cs = concat (map (\<lambda>(gap, item). gap @ item) (zip ((c # g0) # gs) items)) @ rest"
      using l Cons by simp
    then show ?thesis unfolding f by blast
  qed
next
  case (hit s m g)
  from item_match_Some [OF hit.hyps] obtain r where s: "s = m @ r" by blast
  then have d: "drop (length m) s = r" by simp
  define items where "items = findall NUTRIENT_ITEM_REGEX r"
  from hit.IH obtain gaps rest where
    l: "length gaps = length items"
    and e: "r = concat (map (\<lambda>(gap, item). gap @ item) (zip gaps items)) @ rest"
    unfolding d items_def by blast
  have f: "findall NUTRIENT_ITEM_REGEX s = m # items"
    unfolding items_def using findall_item_hit [OF hit.hyps] d by simp
  have "s = m @ (concat (map (\<lambda>(gap, item). gap @ item) (zip gaps items)) @ rest)"
    using s e by simp
  also have "\<dots> = concat (map (\<lambda>(gap, item). gap @ item) (zip ([] # gaps) (m # items))) @ rest"
    by simp
  finally have "length ([] # gaps) = length (m # items) \<and>
      s = concat (map (\<lambda>(gap, item). gap @ item) (zip ([] # gaps) (m # items))) @ rest"
    using l by simp
  then show ?case unfolding f by blast
qed

section \<open>Stripping, and the entry of one item\<close>




lemma not_space_paren [simp]: "\<not> is_space 40" "\<not> is_space 41"
  by (simp_all add: is_space_def)


lemma strip_all_space: "\<forall>c\<in>set s. is_space c \<Longrightarrow> strip s = []"
proof -
  assume "\<forall>c\<in>set s. is_space c"
  then have "dropWhile is_space s = []" by (simp add: dropWhile_eq_Nil_conv)
  then show ?thesis by (simp only: strip_def rev.simps dropWhile.simps)
qed



section \<open>Cells and rows\<close>

lemma build_row_loop_other:
  "c \<notin> fst ` set cm \<Longrightarrow> build_row_loop cm p n q f row c = row c"
  by (induction cm arbitrary: row) auto

lemma build_row_loop_cell:
  "distinct (map fst cm) \<Longrightarrow> (c, k) \<in> set cm \<Longrightarrow>
   build_row_loop cm p n q f row c =
     Some (if c = py ''Nutrient'' then n else if c = py ''Quantity'' then q
           else if f \<and> truthy k then get_or_empty p (the k) else [])"
proof (induction cm arbitrary: row)
  case Nil
  then show ?case by simp
next
  case (Cons x cm)
  obtain c' k' where x: "x = (c', k')" by (cases x)
  show ?case
  proof (cases "(c, k) = x")
    case True
    with Cons.prems x have "c \<notin> fst ` set cm" by auto
    with True x show ?thesis by (simp add: build_row_loop_other)
  next
    case False
    with Cons.prems have "(c, k) \<in> set cm" "distinct (map fst cm)" by auto
    from Cons.IH [OF this(2) this(1)] x show ?thesis by simp
  qed
qed

lemma dom_build_row_loop:
  "dom (build_row_loop cm p n q f row) = dom row \<union> fst ` set cm"
proof (induction cm arbitrary: row)
  case Nil
  then show ?case by simp
next
  case (Cons x cm)
  obtain c k where x: "x = (c, k)" by (cases x)
  have "\<exists>v. build_row_loop (x # cm) p n q f row = build_row_loop cm p n q f (row(c \<mapsto> v))"
    unfolding x by (simp del: fun_upd_apply) blast
  then obtain v where "build_row_loop (x # cm) p n q f row = build_row_loop cm p n q f (row(c \<mapsto> v))"
    by blast
  then have "dom (build_row_loop (x # cm) p n q f row) = dom (row(c \<mapsto> v)) \<union> fst ` set cm"
    by (simp only: Cons.IH)
  with x show ?case by auto
qed

lemma distinct_COLUMN_MAPPING: "distinct (map fst COLUMN_MAPPING)"
  by (simp add: COLUMN_MAPPING_def py_def)

lemma build_row_cell:
  "(c, k) \<in> set COLUMN_MAPPING \<Longrightarrow>
   build_row p n q f c =
     Some (if c = py ''Nutrient'' then n else if c = py ''Quantity'' then q
           else if f \<and> truthy k then get_or_empty p (the k) else [])"
  unfolding build_row_def by (rule build_row_loop_cell [OF distinct_COLUMN_MAPPING])

lemma build_row_Nutrient: "build_row p n q f (py ''Nutrient'') = Some n"
proof -
  have "(py ''Nutrient'', None) \<in> set COLUMN_MAPPING" by (simp add: COLUMN_MAPPING_def)
  from build_row_cell [OF this] show ?thesis by simp
qed

lemma build_row_Quantity: "build_row p n q f (py ''Quantity'') = Some q"
proof -
  have "(py ''Quantity'', None) \<in> set COLUMN_MAPPING" by (simp add: COLUMN_MAPPING_def)
  moreover have "py ''Quantity'' \<noteq> py ''Nutrient''" by (simp add: py_def)
  ultimately show ?thesis using build_row_cell by simp
qed

lemma mapped_column:
  "(c, Some k) \<in> set COLUMN_MAPPING \<Longrightarrow> c \<noteq> py ''Nutrient'' \<and> c \<noteq> py ''Quantity'' \<and> k \<noteq> []"
  by (auto simp: COLUMN_MAPPING_def py_def)

lemma build_row_mapped:
  assumes "(c, Some k) \<in> set COLUMN_MAPPING"
  shows "build_row p n q f c = Some (if f then get_or_empty p k else [])"
  using build_row_cell [OF assms] mapped_column [OF assms] by simp

lemma dom_build_row: "dom (build_row p n q f) = fst ` set COLUMN_MAPPING"
  by (simp add: build_row_def dom_build_row_loop)

lemma rows_loop_later:
  "0 < i \<Longrightarrow> rows_loop p i pairs rows = rows @ map (\<lambda>(nm, qt). build_row p nm qt False) pairs"
  by (induction pairs arbitrary: i rows) auto

lemma rows_loop_first:
  "rows_loop p 0 ((nm, qt) # rest) [] =
     build_row p nm qt True # map (\<lambda>(nm, qt). build_row p nm qt False) rest"
  by (simp add: rows_loop_later)

lemma build_rows_for_product_eq:
  "build_rows_for_product p =
     (case parse_nutrients (Some (get_or_empty p (py ''Nutrient''))) of
        [] \<Rightarrow> [build_row p [] [] True]
      | (nm, qt) # rest \<Rightarrow>
          build_row p nm qt True # map (\<lambda>(nm, qt). build_row p nm qt False) rest)"
  by (auto simp: build_rows_for_product_def Let_def rows_loop_later split: list.splits)

lemma write_rows_eq: "write_rows rows written = written @ rows"
  by (induction rows arbitrary: written) simp_all

lemma convert_loop_eq:
  "convert_loop data written = written @ concat (map build_rows_for_product data)"
  by (induction data arbitrary: written) (simp_all add: write_rows_eq)

section \<open>Text without parentheses\<close>

lemma eval_newline_item:
  "findall NUTRIENT_ITEM_REGEX [97, 40, 10, 41] = [[97, 40, 10, 41]]"
  "strip [97, 40, 10, 41] = [97, 40, 10, 41]"
  "rx_match NUTRIENT_NAME_AND_QTY_REGEX [97, 40, 10, 41] = None"
  by (simp_all add: scan_eval)

text \<open>
  C1, as stated: \<^verbatim>\<open>parse_nutrients("JustAName")\<close> is the one entry
  \<^verbatim>\<open>("JustAName", "")\<close>. It is not: the item pattern asks for a parenthesised group, so
  the scan finds no item in this text and the loop body, with its fallback, never runs.
\<close>

theorem parse_nutrients_bare_name_counterexample:
  "parse_nutrients (Some (py ''JustAName'')) \<noteq> [(py ''JustAName'', [])]"
  by (simp add: scan_eval)

text \<open>
  C1, amended: \<^verbatim>\<open>parse_nutrients("JustAName")\<close> is the empty list, and so is the result
  for every text without an opening parenthesis: such text is passed over, without an
  error. Every item that the scan does find holds both parentheses, and an item that the
  name and quantity pattern does not match becomes the entry (stripped item, \<^verbatim>\<open>""\<close>).
\<close>

theorem parse_nutrients_bare_name:
  "parse_nutrients (Some (py ''JustAName'')) = []
   \<and> (40 \<notin> set s \<longrightarrow> parse_nutrients (Some s) = [])
   \<and> (item \<in> set (findall NUTRIENT_ITEM_REGEX s) \<longrightarrow> 40 \<in> set item \<and> 41 \<in> set item)
   \<and> (rx_match NUTRIENT_NAME_AND_QTY_REGEX (strip item) = None \<longrightarrow>
        nutrient_entry item = (strip item, []))"
proof -
  have "40 \<notin> set (py ''JustAName'')" by (simp add: py_def)
  from findall_item_no_paren [OF this] have "parse_nutrients (Some (py ''JustAName'')) = []"
    by (simp add: parse_nutrients_eq)
  moreover have "40 \<notin> set s \<longrightarrow> parse_nutrients (Some s) = []"
    by (simp add: parse_nutrients_eq findall_item_no_paren)
  moreover have "item \<in> set (findall NUTRIENT_ITEM_REGEX s) \<longrightarrow> 40 \<in> set item \<and> 41 \<in> set item"
    using findall_item_mem [of item s] by auto
  moreover have "rx_match NUTRIENT_NAME_AND_QTY_REGEX (strip item) = None \<longrightarrow>
      nutrient_entry item = (strip item, [])"
    by (simp add: nutrient_entry_def)
  ultimately show ?thesis by blast
qed

theorem parse_nutrients_bare_name_witness:
  "40 \<notin> set (py ''Just, a name'') \<and> parse_nutrients (Some (py ''Just, a name'')) = []
   \<and> findall NUTRIENT_ITEM_REGEX (py ''x(1)'') = [py ''x(1)''] \<and> 40 \<in> set (py ''x(1)'')
   \<and> rx_match NUTRIENT_NAME_AND_QTY_REGEX (strip [97, 40, 10, 41]) = None
   \<and> nutrient_entry [97, 40, 10, 41] = ([97, 40, 10, 41], [])"
proof -
  have a: "40 \<notin> set (py ''Just, a name'')" by (simp add: py_def)
  have b: "findall NUTRIENT_ITEM_REGEX (py ''x(1)'') = [py ''x(1)'']" by (simp add: scan_eval)
  have c: "rx_match NUTRIENT_NAME_AND_QTY_REGEX (strip [97, 40, 10, 41]) = None"
    by (simp add: eval_newline_item)
  from a b c parse_nutrients_bare_name [of "py ''Just, a name''" "[97, 40, 10, 41]"]
    parse_nutrients_bare_name [of "py ''x(1)''" "py ''x(1)''"]
  show ?thesis by (simp add: eval_newline_item)
qed

section \<open>The decimal comma\<close>

text \<open>
  C2. \<^verbatim>\<open>parse_nutrients("Tuky(0,5 g), B<U+00ED>lkoviny(1 g)")\<close> is the two-entry list
  \<^verbatim>\<open>[("Tuky", "0,5 g"), ("B<U+00ED>lkoviny", "1 g")]\<close>: the comma inside the first
  parenthesised group is part of the quantity and does not separate items.
\<close>

theorem parse_nutrients_decimal_comma:
  "parse_nutrients (Some (py ''Tuky(0,5 g), B'' @ [237] @ py ''lkoviny(1 g)'')) =
     [(py ''Tuky'', py ''0,5 g''), (py ''B'' @ [237] @ py ''lkoviny'', py ''1 g'')]"
  by (simp add: scan_eval)

section \<open>The rows of one product\<close>

text \<open>
  C3. For every product, \<^verbatim>\<open>build_rows_for_product\<close> returns \<open>max 1 n\<close> rows, where \<open>n\<close> is
  the number of entries that \<^verbatim>\<open>parse_nutrients\<close> returns on the product's nutrient field;
  the result is never empty.
\<close>

theorem build_rows_count:
  "length (build_rows_for_product p) =
     max 1 (length (parse_nutrients (Some (get_or_empty p (py ''Nutrient'')))))
   \<and> build_rows_for_product p \<noteq> []"
  by (simp add: build_rows_for_product_eq split: list.splits)

theorem build_rows_count_witness:
  "length (build_rows_for_product [py ''Nutrient'' \<mapsto> py ''a(1), b(2)'', py ''SKU'' \<mapsto> py ''123'']) = 2"
proof -
  have e: "parse_nutrients (Some (get_or_empty
        [py ''Nutrient'' \<mapsto> py ''a(1), b(2)'', py ''SKU'' \<mapsto> py ''123''] (py ''Nutrient'')))
      = [(py ''a'', py ''1''), (py ''b'', py ''2'')]"
    by (simp add: get_or_empty_def scan_eval)
  from build_rows_count [of "[py ''Nutrient'' \<mapsto> py ''a(1), b(2)'', py ''SKU'' \<mapsto> py ''123'']"]
  show ?thesis unfolding e by simp
qed

text \<open>
  C4. In the group of rows of a product exactly one row is a first row, and it is the
  first of the group: the first row is built with \<^verbatim>\<open>is_first_row=True\<close> and every later
  one with \<^verbatim>\<open>is_first_row=False\<close>. A first row has, in every column with a source field,
  what the product has in that field (the empty string if it has nothing there). A later
  row has the empty string in every column with a source field. Both have their entry's
  name and quantity in the columns \<^verbatim>\<open>Nutrient\<close> and \<^verbatim>\<open>Quantity\<close>.
\<close>

theorem first_row_once:
  "build_rows_for_product p =
     (case parse_nutrients (Some (get_or_empty p (py ''Nutrient''))) of
        [] \<Rightarrow> [build_row p [] [] True]
      | (nm, qt) # rest \<Rightarrow>
          build_row p nm qt True # map (\<lambda>(nm, qt). build_row p nm qt False) rest)
   \<and> build_row p nm qt True (py ''Nutrient'') = Some nm
   \<and> build_row p nm qt True (py ''Quantity'') = Some qt
   \<and> (\<forall>(c, k)\<in>set COLUMN_MAPPING. \<forall>key. k = Some key \<longrightarrow>
         build_row p nm qt True c = Some (get_or_empty p key))
   \<and> build_row p nm qt False (py ''Nutrient'') = Some nm
   \<and> build_row p nm qt False (py ''Quantity'') = Some qt
   \<and> (\<forall>(c, k)\<in>set COLUMN_MAPPING. k \<noteq> None \<longrightarrow> build_row p nm qt False c = Some [])"
proof (intro conjI)
  show "\<forall>(c, k)\<in>set COLUMN_MAPPING. \<forall>key. k = Some key \<longrightarrow>
         build_row p nm qt True c = Some (get_or_empty p key)"
  proof (intro ballI, clarify)
    fix c k key
    assume "(c, Some key) \<in> set COLUMN_MAPPING"
    from build_row_mapped [OF this] show "build_row p nm qt True c = Some (get_or_empty p key)"
      by simp
  qed
next
  show "\<forall>(c, k)\<in>set COLUMN_MAPPING. k \<noteq> None \<longrightarrow> build_row p nm qt False c = Some []"
  proof (intro ballI, clarify)
    fix c k key
    assume "(c, Some key) \<in> set COLUMN_MAPPING"
    from build_row_mapped [OF this] show "build_row p nm qt False c = Some []" by simp
  qed
qed (rule build_rows_for_product_eq build_row_Nutrient build_row_Quantity)+

theorem first_row_once_witness:
  "(py ''SKU'', Some (py ''SKU'')) \<in> set COLUMN_MAPPING
   \<and> build_rows_for_product [py ''Nutrient'' \<mapsto> py ''a(1), b(2)'', py ''SKU'' \<mapsto> py ''123''] =
       [build_row [py ''Nutrient'' \<mapsto> py ''a(1), b(2)'', py ''SKU'' \<mapsto> py ''123'']
          (py ''a'') (py ''1'') True,
        build_row [py ''Nutrient'' \<mapsto> py ''a(1), b(2)'', py ''SKU'' \<mapsto> py ''123'']
          (py ''b'') (py ''2'') False]
   \<and> build_row [py ''Nutrient'' \<mapsto> py ''a(1), b(2)'', py ''SKU'' \<mapsto> py ''123'']
         (py ''a'') (py ''1'') True (py ''SKU'') = Some (py ''123'')
   \<and> build_row [py ''Nutrient'' \<mapsto> py ''a(1), b(2)'', py ''SKU'' \<mapsto> py ''123'']
         (py ''a'') (py ''1'') True (py ''Nutrient'') = Some (py ''a'')
   \<and> build_row [py ''Nutrient'' \<mapsto> py ''a(1), b(2)'', py ''SKU'' \<mapsto> py ''123'']
         (py ''b'') (py ''2'') False (py ''SKU'') = Some []
   \<and> build_row [py ''Nutrient'' \<mapsto> py ''a(1), b(2)'', py ''SKU'' \<mapsto> py ''123'']
         (py ''b'') (py ''2'') False (py ''Nutrient'') = Some (py ''b'')"
proof -
  define p where "p = [py ''Nutrient'' \<mapsto> py ''a(1), b(2)'', py ''SKU'' \<mapsto> py ''123'']"
  have m: "(py ''SKU'', Some (py ''SKU'')) \<in> set COLUMN_MAPPING"
    by (simp add: COLUMN_MAPPING_def)
  have v: "get_or_empty p (py ''SKU'') = py ''123''"
    by (simp add: p_def get_or_empty_def py_def)
  have e: "parse_nutrients (Some (get_or_empty p (py ''Nutrient'')))
      = [(py ''a'', py ''1''), (py ''b'', py ''2'')]"
    by (simp add: p_def get_or_empty_def scan_eval)
  note t = first_row_once [of p "py ''b''" "py ''2''"]
  note u = first_row_once [of p "py ''a''" "py ''1''"]
  from t have r: "build_rows_for_product p =
      [build_row p (py ''a'') (py ''1'') True, build_row p (py ''b'') (py ''2'') False]"
    unfolding e by simp
  from u m have "build_row p (py ''a'') (py ''1'') True (py ''SKU'') = Some (get_or_empty p (py ''SKU''))"
    by blast
  then have a: "build_row p (py ''a'') (py ''1'') True (py ''SKU'') = Some (py ''123'')"
    by (simp only: v)
  from u have a': "build_row p (py ''a'') (py ''1'') True (py ''Nutrient'') = Some (py ''a'')"
    by blast
  from t m have b: "build_row p (py ''b'') (py ''2'') False (py ''SKU'') = Some []" by blast
  from t have b': "build_row p (py ''b'') (py ''2'') False (py ''Nutrient'') = Some (py ''b'')"
    by blast
  from m r a a' b b' show ?thesis unfolding p_def by blast
qed

section \<open>Missing data\<close>

text \<open>
  C5. When the nutrient field of a product is missing, empty or made of whitespace only,
  \<^verbatim>\<open>parse_nutrients\<close> returns the empty list (also for \<^verbatim>\<open>None\<close>), and
  \<^verbatim>\<open>build_rows_for_product\<close> returns exactly one row: a first row, with the empty string
  in the columns \<^verbatim>\<open>Nutrient\<close> and \<^verbatim>\<open>Quantity\<close> and with every column that has a source
  field filled from the product.
\<close>

theorem empty_nutrient_field:
  assumes "case p (py ''Nutrient'') of None \<Rightarrow> True | Some t \<Rightarrow> \<forall>c\<in>set t. is_space c"
  shows "parse_nutrients None = []
    \<and> parse_nutrients (Some (get_or_empty p (py ''Nutrient''))) = []
    \<and> build_rows_for_product p = [build_row p [] [] True]
    \<and> build_row p [] [] True (py ''Nutrient'') = Some []
    \<and> build_row p [] [] True (py ''Quantity'') = Some []
    \<and> (\<forall>(c, k)\<in>set COLUMN_MAPPING. \<forall>key. k = Some key \<longrightarrow>
          build_row p [] [] True c = Some (get_or_empty p key))"
proof -
  have sp: "\<forall>c\<in>set (get_or_empty p (py ''Nutrient'')). is_space c"
    using assms by (auto simp: get_or_empty_def split: option.splits)
  then have "40 \<notin> set (get_or_empty p (py ''Nutrient''))" using not_space_paren(1) by blast
  then have e: "parse_nutrients (Some (get_or_empty p (py ''Nutrient''))) = []"
    by (simp add: parse_nutrients_eq findall_item_no_paren)
  have n: "parse_nutrients None = []"
    by (simp add: parse_nutrients_def findall_item_Nil)
  have "\<forall>(c, k)\<in>set COLUMN_MAPPING. \<forall>key. k = Some key \<longrightarrow>
          build_row p [] [] True c = Some (get_or_empty p key)"
  proof (intro ballI, clarify)
    fix c k key
    assume "(c, Some key) \<in> set COLUMN_MAPPING"
    from build_row_mapped [OF this] show "build_row p [] [] True c = Some (get_or_empty p key)"
      by simp
  qed
  with e n show ?thesis
    by (simp add: build_rows_for_product_eq build_row_Nutrient build_row_Quantity)
qed

theorem empty_nutrient_field_witness:
  "[py ''Nutrient'' \<mapsto> [32, 9], py ''SKU'' \<mapsto> py ''123''] (py ''Nutrient'') = Some [32, 9]
   \<and> is_space 32 \<and> is_space 9
   \<and> build_rows_for_product [py ''Nutrient'' \<mapsto> [32, 9], py ''SKU'' \<mapsto> py ''123''] =
       [build_row [py ''Nutrient'' \<mapsto> [32, 9], py ''SKU'' \<mapsto> py ''123''] [] [] True]
   \<and> build_row [py ''Nutrient'' \<mapsto> [32, 9], py ''SKU'' \<mapsto> py ''123''] [] [] True (py ''SKU'')
       = Some (py ''123'')
   \<and> [py ''SKU'' \<mapsto> py ''123''] (py ''Nutrient'') = None
   \<and> build_rows_for_product [py ''SKU'' \<mapsto> py ''123''] =
       [build_row [py ''SKU'' \<mapsto> py ''123''] [] [] True]"
proof -
  define p where "p = [py ''Nutrient'' \<mapsto> [32, 9], py ''SKU'' \<mapsto> py ''123'']"
  define p' where "p' = [py ''SKU'' \<mapsto> py ''123'']"
  have v: "p (py ''Nutrient'') = Some [32, 9]" "p (py ''SKU'') = Some (py ''123'')"
    "p' (py ''Nutrient'') = None"
    by (simp_all add: p_def p'_def py_def)
  have s: "is_space 32" "is_space 9" by (simp_all add: is_space_def)
  have h: "case p (py ''Nutrient'') of None \<Rightarrow> True | Some t \<Rightarrow> \<forall>c\<in>set t. is_space c"
    using v s by simp
  have h': "case p' (py ''Nutrient'') of None \<Rightarrow> True | Some t \<Rightarrow> \<forall>c\<in>set t. is_space c"
    using v by simp
  have m: "(py ''SKU'', Some (py ''SKU'')) \<in> set COLUMN_MAPPING"
    by (simp add: COLUMN_MAPPING_def)
  note t = empty_nutrient_field [of p, OF h] and t' = empty_nutrient_field [of p', OF h']
  from t m have "build_row p [] [] True (py ''SKU'') = Some (get_or_empty p (py ''SKU''))" by blast
  then have c: "build_row p [] [] True (py ''SKU'') = Some (py ''123'')"
    by (simp add: get_or_empty_def v)
  from t have r: "build_rows_for_product p = [build_row p [] [] True]" by blast
  from t' have r': "build_rows_for_product p' = [build_row p' [] [] True]" by blast
  from v s c r r' show ?thesis unfolding p_def p'_def by blast
qed

text \<open>
  C6. On a first row, a column whose source field the product does not have gets the
  empty string. \<^verbatim>\<open>build_row\<close> is total, so a missing field raises nothing, and every row
  has exactly the columns of \<^verbatim>\<open>COLUMN_MAPPING\<close>.
\<close>

theorem missing_field_blank:
  "(\<forall>(c, k)\<in>set COLUMN_MAPPING. \<forall>key. k = Some key \<and> p key = None \<longrightarrow>
        build_row p nm qt True c = Some [])
   \<and> dom (build_row p nm qt f) = set (map fst COLUMN_MAPPING)
   \<and> (\<forall>r\<in>set (build_rows_for_product p). dom r = set (map fst COLUMN_MAPPING))"
proof -
  have "\<forall>(c, k)\<in>set COLUMN_MAPPING. \<forall>key. k = Some key \<and> p key = None \<longrightarrow>
        build_row p nm qt True c = Some []"
  proof (intro ballI, clarify)
    fix c k key
    assume "(c, Some key) \<in> set COLUMN_MAPPING" and "p key = None"
    with build_row_mapped [OF this(1)] show "build_row p nm qt True c = Some []"
      by (simp add: get_or_empty_def)
  qed
  moreover have "\<forall>r\<in>set (build_rows_for_product p). dom r = set (map fst COLUMN_MAPPING)"
  proof
    fix r assume "r \<in> set (build_rows_for_product p)"
    then obtain a b g where "r = build_row p a b g"
      unfolding build_rows_for_product_eq by (auto split: list.splits)
    then show "dom r = set (map fst COLUMN_MAPPING)" by (simp add: dom_build_row)
  qed
  ultimately show ?thesis by (simp add: dom_build_row)
qed

theorem missing_field_blank_witness:
  "(py ''Size'', Some (py ''Size'')) \<in> set COLUMN_MAPPING
   \<and> [py ''SKU'' \<mapsto> py ''123''] (py ''Size'') = None
   \<and> build_row [py ''SKU'' \<mapsto> py ''123''] [] [] True (py ''Size'') = Some []
   \<and> build_rows_for_product [py ''SKU'' \<mapsto> py ''123''] =
       [build_row [py ''SKU'' \<mapsto> py ''123''] [] [] True]
   \<and> dom (build_row [py ''SKU'' \<mapsto> py ''123''] [] [] True) = set (map fst COLUMN_MAPPING)"
proof -
  define p where "p = [py ''SKU'' \<mapsto> py ''123'']"
  have m: "(py ''Size'', Some (py ''Size'')) \<in> set COLUMN_MAPPING"
    by (simp add: COLUMN_MAPPING_def)
  have v: "p (py ''Size'') = None" "p (py ''Nutrient'') = None" by (simp_all add: p_def py_def)
  have e: "parse_nutrients (Some (get_or_empty p (py ''Nutrient''))) = []"
    by (simp add: get_or_empty_def v parse_nutrients_eq findall_item_Nil)
  then have r: "build_rows_for_product p = [build_row p [] [] True]"
    by (simp add: build_rows_for_product_eq)
  note t = missing_field_blank [of p "[]" "[]" True]
  from t m v have c: "build_row p [] [] True (py ''Size'') = Some []" by blast
  from t r have d: "dom (build_row p [] [] True) = set (map fst COLUMN_MAPPING)" by simp
  from m v c r d show ?thesis unfolding p_def by blast
qed

section \<open>Order\<close>

text \<open>
  C7. Order is kept from the text to the file. The items that the scan of
  \<^verbatim>\<open>parse_nutrients\<close> finds lie in the text one after the other, in the order of the
  list, and the entries are the items' entries in that order, with nothing merged or
  sorted (as on \<^verbatim>\<open>"b(2), a(1), b(2)"\<close>). \<^verbatim>\<open>build_rows_for_product\<close> gives one row for
  each entry, in the order of the entries, and \<^verbatim>\<open>convert_json_to_csv\<close> writes the groups
  of rows in the order of the products.
\<close>

theorem order_preserved:
  "(\<exists>gaps rest. length gaps = length (findall NUTRIENT_ITEM_REGEX s)
       \<and> s = concat (map (\<lambda>(gap, item). gap @ item) (zip gaps (findall NUTRIENT_ITEM_REGEX s))) @ rest)
   \<and> parse_nutrients (Some s) = map nutrient_entry (findall NUTRIENT_ITEM_REGEX s)
   \<and> parse_nutrients (Some (py ''b(2), a(1), b(2)'')) =
        [(py ''b'', py ''2''), (py ''a'', py ''1''), (py ''b'', py ''2'')]
   \<and> (parse_nutrients (Some (get_or_empty p (py ''Nutrient''))) \<noteq> [] \<longrightarrow>
        map (\<lambda>r. (r (py ''Nutrient''), r (py ''Quantity''))) (build_rows_for_product p) =
        map (\<lambda>(nm, qt). (Some nm, Some qt)) (parse_nutrients (Some (get_or_empty p (py ''Nutrient'')))))
   \<and> convert_json_to_csv data = concat (map build_rows_for_product data)"
proof (intro conjI)
  show "parse_nutrients (Some (py ''b(2), a(1), b(2)'')) =
        [(py ''b'', py ''2''), (py ''a'', py ''1''), (py ''b'', py ''2'')]"
    by (simp add: scan_eval)
next
  define es where "es = parse_nutrients (Some (get_or_empty p (py ''Nutrient'')))"
  have cols: "\<And>nm qt f. (build_row p nm qt f (py ''Nutrient''), build_row p nm qt f (py ''Quantity''))
      = (Some nm, Some qt)"
    by (simp add: build_row_Nutrient build_row_Quantity)
  have "es \<noteq> [] \<longrightarrow>
        map (\<lambda>r. (r (py ''Nutrient''), r (py ''Quantity''))) (build_rows_for_product p) =
        map (\<lambda>(nm, qt). (Some nm, Some qt)) es"
  proof
    assume "es \<noteq> []"
    then obtain nm qt rest where e: "es = (nm, qt) # rest" by (cases es) auto
    then have "build_rows_for_product p =
        build_row p nm qt True # map (\<lambda>(nm, qt). build_row p nm qt False) rest"
      using build_rows_for_product_eq [of p] by (simp add: es_def)
    then show "map (\<lambda>r. (r (py ''Nutrient''), r (py ''Quantity''))) (build_rows_for_product p) =
        map (\<lambda>(nm, qt). (Some nm, Some qt)) es"
      unfolding e by (simp add: cols comp_def case_prod_unfold)
  qed
  then show "parse_nutrients (Some (get_or_empty p (py ''Nutrient''))) \<noteq> [] \<longrightarrow>
        map (\<lambda>r. (r (py ''Nutrient''), r (py ''Quantity''))) (build_rows_for_product p) =
        map (\<lambda>(nm, qt). (Some nm, Some qt)) (parse_nutrients (Some (get_or_empty p (py ''Nutrient''))))"
    unfolding es_def .
next
  show "convert_json_to_csv data = concat (map build_rows_for_product data)"
    by (simp add: convert_json_to_csv_def convert_loop_eq)
qed (rule findall_item_in_order parse_nutrients_eq)+

theorem order_preserved_witness:
  "parse_nutrients (Some (get_or_empty [py ''Nutrient'' \<mapsto> py ''b(2), a(1)''] (py ''Nutrient''))) \<noteq> []
   \<and> map (\<lambda>r. (r (py ''Nutrient''), r (py ''Quantity'')))
        (build_rows_for_product [py ''Nutrient'' \<mapsto> py ''b(2), a(1)'']) =
      [(Some (py ''b''), Some (py ''2'')), (Some (py ''a''), Some (py ''1''))]"
proof -
  have e: "parse_nutrients (Some (get_or_empty [py ''Nutrient'' \<mapsto> py ''b(2), a(1)''] (py ''Nutrient'')))
      = [(py ''b'', py ''2''), (py ''a'', py ''1'')]"
    by (simp add: get_or_empty_def scan_eval)
  from order_preserved [of "[]" "[py ''Nutrient'' \<mapsto> py ''b(2), a(1)'']" "[]"] e
  show ?thesis by simp
qed

lemma parse_loop_st_state: "snd (parse_loop_st items results st) = st"
  by (induction items arbitrary: results) (simp_all add: Let_def split: option.splits)

lemma parse_loop_st_result:
  "nutrient_name_and_qty_regex st = nutrient_name_and_qty_regex st' \<Longrightarrow>
   fst (parse_loop_st items results st) = fst (parse_loop_st items results st')"
  by (induction items arbitrary: results) (simp_all add: Let_def split: option.splits)

lemma parse_loop_st_loaded:
  "fst (parse_loop_st items results module_loaded) = parse_loop items results"
  by (induction items arbitrary: results)
    (simp_all add: Let_def nutrient_entry_def module_loaded_def split: option.splits)

text \<open>
  C8. \<^verbatim>\<open>parse_nutrients\<close> is deterministic and keeps no state. Run in any state of the
  module, a call leaves the state as it found it, so a second call on the same argument
  returns the same list; the list is the same in every state that has the same two
  patterns, whatever the other variables hold; and in the state of the loaded module it
  is the list that the function of the argument alone gives.
\<close>

theorem parse_nutrients_stateless:
  assumes "parse_nutrients_st s st = (r, st')"
  shows "st' = st
    \<and> parse_nutrients_st s st' = (r, st')
    \<and> (nutrient_item_regex st2 = nutrient_item_regex st
         \<and> nutrient_name_and_qty_regex st2 = nutrient_name_and_qty_regex st
       \<longrightarrow> fst (parse_nutrients_st s st2) = r)
    \<and> (st = module_loaded \<longrightarrow> r = parse_nutrients s)"
proof -
  have "snd (parse_nutrients_st s st) = st"
    unfolding parse_nutrients_st_def by (rule parse_loop_st_state)
  with assms have st: "st' = st" by simp
  from assms have r: "r = fst (parse_nutrients_st s st)" by simp
  have "nutrient_item_regex st2 = nutrient_item_regex st
         \<and> nutrient_name_and_qty_regex st2 = nutrient_name_and_qty_regex st
       \<longrightarrow> fst (parse_nutrients_st s st2) = r"
    unfolding r parse_nutrients_st_def using parse_loop_st_result [of st2 st] by simp
  moreover have "st = module_loaded \<longrightarrow> r = parse_nutrients s"
    unfolding r by (simp add: parse_nutrients_st_def parse_nutrients_def parse_loop_st_loaded
        module_loaded_def [symmetric])
      (simp add: module_loaded_def)
  ultimately show ?thesis using st assms by simp
qed

theorem parse_nutrients_stateless_witness:
  "parse_nutrients_st (Some (py ''a(1), a(1)'')) module_loaded =
     ([(py ''a'', py ''1''), (py ''a'', py ''1'')], module_loaded)
   \<and> fst (parse_nutrients_st (Some (py ''a(1), a(1)''))
        (module_loaded\<lparr>output_csv := py ''other.csv'', column_mapping := []\<rparr>)) =
      [(py ''a'', py ''1''), (py ''a'', py ''1'')]
   \<and> parse_nutrients (Some (py ''a(1), a(1)'')) = [(py ''a'', py ''1''), (py ''a'', py ''1'')]"
proof -
  have e: "parse_nutrients_st (Some (py ''a(1), a(1)'')) module_loaded =
     ([(py ''a'', py ''1''), (py ''a'', py ''1'')], module_loaded)"
    by (simp add: parse_nutrients_st_def module_loaded_def scan_eval)
  note t = parse_nutrients_stateless [OF e,
      of "module_loaded\<lparr>output_csv := py ''other.csv'', column_mapping := []\<rparr>"]
  from t have a: "fst (parse_nutrients_st (Some (py ''a(1), a(1)''))
        (module_loaded\<lparr>output_csv := py ''other.csv'', column_mapping := []\<rparr>)) =
      [(py ''a'', py ''1''), (py ''a'', py ''1'')]"
    by simp
  from t have b: "parse_nutrients (Some (py ''a(1), a(1)'')) =
      [(py ''a'', py ''1''), (py ''a'', py ''1'')]"
    by simp
  from e a b show ?thesis by blast
qed

section \<open>The fallback branch\<close>







end
